theory Spec2Isabelle
  imports Complex_Main
begin

section \<open>Common vocabulary\<close>

text \<open>
  Python strings and byte strings are modelled as \<open>string\<close>; the model is exact for
  ASCII text.  A Python call either returns a value or raises an exception; the
  exception is kept as its message, \<open>str(e)\<close>.
\<close>

datatype 'a outcome = Returns 'a | Raises string

text \<open>\<open>str(n)\<close> for a non-negative integer.\<close>

definition digit_char :: "nat \<Rightarrow> char" where
  "digit_char d = ''0123456789'' ! d"

function str_nat :: "nat \<Rightarrow> string" where
  "str_nat n = (if n < 10 then [digit_char n] else str_nat (n div 10) @ [digit_char (n mod 10)])"
  by pat_completeness auto
termination
  by (relation "measure id") auto

text \<open>ASCII case folding, as SQLite's built-in \<open>LIKE\<close> applies it.\<close>

definition ascii_lower :: "char \<Rightarrow> char" where
  "ascii_lower c =
     (case map_of (zip ''ABCDEFGHIJKLMNOPQRSTUVWXYZ'' ''abcdefghijklmnopqrstuvwxyz'') c of
        Some d \<Rightarrow> d
      | None \<Rightarrow> c)"


section \<open>Catalog: \<open>database.py\<close>\<close>

text \<open>
  The tables \<open>pdfs\<close> and \<open>user_pdfs\<close> of \<open>init_db_schema\<close>.  A table is the list of its
  rows in rowid order, together with the \<open>AUTOINCREMENT\<close> counter SQLite keeps for it
  (the largest rowid ever handed out).  \<open>created_at\<close> and \<open>uploaded_at\<close> default to
  \<open>CURRENT_TIMESTAMP\<close>, which is the field \<open>current_timestamp\<close> of the database state.
\<close>

record pdf_row =
  pdf_id :: nat
  title :: string
  file_path :: string
  pdf_hash :: string
  file_size :: nat
  page_count :: nat
  created_at :: nat

record user_pdf_row =
  link_id :: nat
  link_user_id :: nat
  link_pdf_id :: nat
  uploaded_at :: nat

record db =
  pdfs :: "pdf_row list"
  pdfs_seq :: nat
  user_pdfs :: "user_pdf_row list"
  user_pdfs_seq :: nat
  current_timestamp :: nat

text \<open>
  The rowid of an insert into an \<open>AUTOINCREMENT\<close> table: one more than the largest of
  the rowids in the table and the counter.
\<close>

definition next_rowid :: "nat list \<Rightarrow> nat \<Rightarrow> nat" where
  "next_rowid ids seq = Suc (fold max ids seq)"

text \<open>\<open>SELECT * FROM pdfs WHERE pdf_hash = ?\<close> followed by \<open>fetchone()\<close>.\<close>

definition get_pdf_by_hash :: "db \<Rightarrow> string \<Rightarrow> pdf_row option" where
  "get_pdf_by_hash d h = find (\<lambda>r. pdf_hash r = h) (pdfs d)"

text \<open>
  \<open>add_pdf\<close>: look the hash up first and return the id of the row found; otherwise
  insert and return \<open>cursor.lastrowid\<close>.  The result is the returned id and the
  database after the call.  (\<open>sync_db_to_cloud\<close> copies the database file to the
  remote tier and swallows every error; it does not change the tables.)
\<close>

definition add_pdf :: "db \<Rightarrow> string \<Rightarrow> string \<Rightarrow> string \<Rightarrow> nat \<Rightarrow> nat \<Rightarrow> nat \<times> db" where
  "add_pdf d ttl path h sz pages =
     (case find (\<lambda>r. pdf_hash r = h) (pdfs d) of
        Some existing_pdf \<Rightarrow> (pdf_id existing_pdf, d)
      | None \<Rightarrow>
          (let new_id = next_rowid (map pdf_id (pdfs d)) (pdfs_seq d);
               row = \<lparr>pdf_id = new_id, title = ttl, file_path = path, pdf_hash = h,
                      file_size = sz, page_count = pages, created_at = current_timestamp d\<rparr>
           in (new_id, d\<lparr>pdfs := pdfs d @ [row], pdfs_seq := new_id\<rparr>)))"

text \<open>\<open>associate_pdf_with_user\<close>: the same shape on the link table.\<close>

definition associate_pdf_with_user :: "db \<Rightarrow> nat \<Rightarrow> nat \<Rightarrow> nat \<times> db" where
  "associate_pdf_with_user d uid pid =
     (case find (\<lambda>r. link_user_id r = uid \<and> link_pdf_id r = pid) (user_pdfs d) of
        Some existing \<Rightarrow> (link_id existing, d)
      | None \<Rightarrow>
          (let new_id = next_rowid (map link_id (user_pdfs d)) (user_pdfs_seq d);
               row = \<lparr>link_id = new_id, link_user_id = uid, link_pdf_id = pid,
                      uploaded_at = current_timestamp d\<rparr>
           in (new_id, d\<lparr>user_pdfs := user_pdfs d @ [row], user_pdfs_seq := new_id\<rparr>)))"

text \<open>A sequence of \<open>associate_pdf_with_user\<close> calls, threading the database.\<close>

fun associate_all :: "db \<Rightarrow> (nat \<times> nat) list \<Rightarrow> db" where
  "associate_all d [] = d"
| "associate_all d ((uid, pid) # calls) = associate_all (snd (associate_pdf_with_user d uid pid)) calls"

text \<open>The number of link rows for one (user, pdf) pair.\<close>

definition link_count :: "db \<Rightarrow> nat \<Rightarrow> nat \<Rightarrow> nat" where
  "link_count d uid pid =
     length (filter (\<lambda>r. link_user_id r = uid \<and> link_pdf_id r = pid) (user_pdfs d))"

text \<open>
  SQLite's \<open>LIKE\<close> without an \<open>ESCAPE\<close> clause: \<open>%\<close> in the pattern matches any
  sequence of characters, the empty one too, \<open>_\<close> matches any one character, and every
  other character matches itself up to ASCII case.
\<close>

fun sql_like :: "string \<Rightarrow> string \<Rightarrow> bool" where
  "sql_like [] s = (s = [])"
| "sql_like (p # ps) [] = (p = CHR ''%'' \<and> sql_like ps [])"
| "sql_like (p # ps) (c # cs) =
     (if p = CHR ''%'' then sql_like ps (c # cs) \<or> sql_like (p # ps) cs
      else (p = CHR ''_'' \<or> ascii_lower p = ascii_lower c) \<and> sql_like ps cs)"

text \<open>
  \<open>get_pdf_versions_by_name\<close>: the rows whose \<open>file_path\<close> equals the base name, then
  the rows whose \<open>file_path\<close> is \<open>LIKE base_name + '_%'\<close>.
\<close>

definition get_pdf_versions_by_name :: "db \<Rightarrow> string \<Rightarrow> string list" where
  "get_pdf_versions_by_name d base_name =
     map file_path (filter (\<lambda>r. file_path r = base_name) (pdfs d)) @
     map file_path (filter (\<lambda>r. sql_like (base_name @ ''_%'') (file_path r)) (pdfs d))"


section \<open>ContentStore, remote tier: \<open>cloud_storage.py\<close>\<close>

text \<open>
  The remote blob store is outside the program.  A client is the collection of the
  calls the module makes on it (\<open>bucket.blob(path).upload_from_string(...)\<close> and so
  on), each taking the bucket name and the blob path first and each free to return or
  to raise.  Building the \<open>bucket\<close> and \<open>blob\<close> handles contacts nothing and is not
  modelled as a step of its own.
\<close>

record gcs_client =
  blob_upload_from_string :: "string \<Rightarrow> string \<Rightarrow> string \<Rightarrow> string option \<Rightarrow> unit outcome"
  blob_upload_from_file :: "string \<Rightarrow> string \<Rightarrow> string \<Rightarrow> string option \<Rightarrow> unit outcome"
  blob_upload_from_filename :: "string \<Rightarrow> string \<Rightarrow> string \<Rightarrow> unit outcome"
  blob_exists :: "string \<Rightarrow> string \<Rightarrow> bool outcome"
  blob_generate_signed_url :: "string \<Rightarrow> string \<Rightarrow> nat \<Rightarrow> string outcome"
  blob_download_to_filename :: "string \<Rightarrow> string \<Rightarrow> string \<Rightarrow> unit outcome"
  blob_download_as_bytes :: "string \<Rightarrow> string \<Rightarrow> string outcome"
  bucket_list_blobs :: "string \<Rightarrow> string \<Rightarrow> string list outcome"
  blob_delete :: "string \<Rightarrow> string \<Rightarrow> unit outcome"

text \<open>
  What \<open>get_storage_client\<close> reads: the environment variable
  \<open>GOOGLE_APPLICATION_CREDENTIALS\<close>, whether that file exists, and the result of
  \<open>storage.Client.from_service_account_json\<close>.
\<close>

record cloud_env =
  credentials_path :: "string option"
  credentials_file_exists :: bool
  from_service_account_json :: "gcs_client outcome"

definition get_storage_client :: "cloud_env \<Rightarrow> gcs_client option" where
  "get_storage_client env =
     (case credentials_path env of
        None \<Rightarrow> None
      | Some p \<Rightarrow>
          if p = [] then None
          else if \<not> credentials_file_exists env then None
          else (case from_service_account_json env of
                  Returns client \<Rightarrow> Some client
                | Raises e \<Rightarrow> None))"

text \<open>
  \<open>upload_file\<close>: the three branches on the type of the content and on the content
  type all make the same \<open>upload_from_string\<close> call.
\<close>

definition upload_file :: "cloud_env \<Rightarrow> string \<Rightarrow> string \<Rightarrow> string \<Rightarrow> string option \<Rightarrow> string option outcome" where
  "upload_file env file_content path bucket_name content_type =
     (case get_storage_client env of
        None \<Rightarrow> Returns None
      | Some client \<Rightarrow>
          (case blob_upload_from_string client bucket_name path file_content content_type of
             Returns u \<Rightarrow> Returns (Some path)
           | Raises e \<Rightarrow> Returns None))"

definition upload_from_file :: "cloud_env \<Rightarrow> string \<Rightarrow> string \<Rightarrow> string \<Rightarrow> string option \<Rightarrow> string option outcome" where
  "upload_from_file env file_object path bucket_name content_type =
     (case get_storage_client env of
        None \<Rightarrow> Returns None
      | Some client \<Rightarrow>
          (case blob_upload_from_file client bucket_name path file_object content_type of
             Returns u \<Rightarrow> Returns (Some path)
           | Raises e \<Rightarrow> Returns None))"

definition upload_from_filename :: "cloud_env \<Rightarrow> string \<Rightarrow> string \<Rightarrow> string \<Rightarrow> string option \<Rightarrow> string option outcome" where
  "upload_from_filename env local_file_path path bucket_name content_type =
     (case get_storage_client env of
        None \<Rightarrow> Returns None
      | Some client \<Rightarrow>
          (case blob_upload_from_filename client bucket_name path local_file_path of
             Returns u \<Rightarrow> Returns (Some path)
           | Raises e \<Rightarrow> Returns None))"

definition generate_signed_url :: "cloud_env \<Rightarrow> string \<Rightarrow> string \<Rightarrow> nat \<Rightarrow> string option outcome" where
  "generate_signed_url env path bucket_name expiration_minutes =
     (case get_storage_client env of
        None \<Rightarrow> Returns None
      | Some client \<Rightarrow>
          (case blob_exists client bucket_name path of
             Raises e \<Rightarrow> Returns None
           | Returns False \<Rightarrow> Returns None
           | Returns True \<Rightarrow>
               (case blob_generate_signed_url client bucket_name path expiration_minutes of
                  Returns url \<Rightarrow> Returns (Some url)
                | Raises e \<Rightarrow> Returns None)))"

text \<open>\<open>download_file\<close> has no handler around \<open>blob.download_to_filename\<close>.\<close>

definition download_file :: "cloud_env \<Rightarrow> string \<Rightarrow> string \<Rightarrow> string \<Rightarrow> string option outcome" where
  "download_file env path local_path bucket_name =
     (case get_storage_client env of
        None \<Rightarrow> Returns None
      | Some client \<Rightarrow>
          (case blob_download_to_filename client bucket_name path local_path of
             Returns u \<Rightarrow> Returns (Some local_path)
           | Raises e \<Rightarrow> Raises e))"

definition download_as_string :: "cloud_env \<Rightarrow> string \<Rightarrow> string \<Rightarrow> string option outcome" where
  "download_as_string env path bucket_name =
     (case get_storage_client env of
        None \<Rightarrow> Returns None
      | Some client \<Rightarrow>
          (case blob_download_as_bytes client bucket_name path of
             Returns bytes \<Rightarrow> Returns (Some bytes)
           | Raises e \<Rightarrow> Returns None))"

definition check_if_file_exists :: "cloud_env \<Rightarrow> string \<Rightarrow> string \<Rightarrow> bool outcome" where
  "check_if_file_exists env path bucket_name =
     (case get_storage_client env of
        None \<Rightarrow> Returns False
      | Some client \<Rightarrow>
          (case blob_exists client bucket_name path of
             Returns b \<Rightarrow> Returns b
           | Raises e \<Rightarrow> Returns False))"

definition list_files_with_prefix :: "cloud_env \<Rightarrow> string \<Rightarrow> string \<Rightarrow> string list outcome" where
  "list_files_with_prefix env prefix bucket_name =
     (case get_storage_client env of
        None \<Rightarrow> Returns []
      | Some client \<Rightarrow>
          (case bucket_list_blobs client bucket_name prefix of
             Returns names \<Rightarrow> Returns names
           | Raises e \<Rightarrow> Returns []))"

text \<open>\<open>delete_file\<close> has no handler either.\<close>

definition delete_file :: "cloud_env \<Rightarrow> string \<Rightarrow> string \<Rightarrow> bool outcome" where
  "delete_file env path bucket_name =
     (case get_storage_client env of
        None \<Rightarrow> Returns False
      | Some client \<Rightarrow>
          (case blob_exists client bucket_name path of
             Raises e \<Rightarrow> Raises e
           | Returns False \<Rightarrow> Returns False
           | Returns True \<Rightarrow>
               (case blob_delete client bucket_name path of
                  Returns u \<Rightarrow> Returns True
                | Raises e \<Rightarrow> Raises e)))"

text \<open>
  A remote tier that is reachable through a client and on which every storage
  operation raises, and the default bucket name.
\<close>

definition DEFAULT_BUCKET_NAME :: string where
  "DEFAULT_BUCKET_NAME = ''studybuddy-pdf-storage''"

definition unreachable_client :: gcs_client where
  "unreachable_client =
     \<lparr>blob_upload_from_string = (\<lambda>b p c t. Raises ''503 Service Unavailable''),
      blob_upload_from_file = (\<lambda>b p c t. Raises ''503 Service Unavailable''),
      blob_upload_from_filename = (\<lambda>b p l. Raises ''503 Service Unavailable''),
      blob_exists = (\<lambda>b p. Raises ''503 Service Unavailable''),
      blob_generate_signed_url = (\<lambda>b p m. Raises ''503 Service Unavailable''),
      blob_download_to_filename = (\<lambda>b p l. Raises ''503 Service Unavailable''),
      blob_download_as_bytes = (\<lambda>b p. Raises ''503 Service Unavailable''),
      bucket_list_blobs = (\<lambda>b p. Raises ''503 Service Unavailable''),
      blob_delete = (\<lambda>b p. Raises ''503 Service Unavailable'')\<rparr>"

definition unreachable_env :: cloud_env where
  "unreachable_env =
     \<lparr>credentials_path = Some ''credentials.json'',
      credentials_file_exists = True,
      from_service_account_json = Returns unreachable_client\<rparr>"

text \<open>A process without credentials: local-only mode.\<close>

definition local_only_env :: cloud_env where
  "local_only_env =
     \<lparr>credentials_path = None,
      credentials_file_exists = False,
      from_service_account_json = Raises ''no credentials''\<rparr>"


text \<open>
  The \<open>INSERT INTO pdfs\<close> statement by itself, under the \<open>UNIQUE\<close> constraint of
  \<open>pdf_hash\<close>: it raises \<open>sqlite3.IntegrityError\<close> when a row with the hash is in the
  table, and appends the row otherwise.
\<close>

definition insert_pdf :: "db \<Rightarrow> string \<Rightarrow> string \<Rightarrow> string \<Rightarrow> nat \<Rightarrow> nat \<Rightarrow> (nat \<times> db) outcome" where
  "insert_pdf d ttl path h sz pages =
     (if list_ex (\<lambda>r. pdf_hash r = h) (pdfs d)
      then Raises ''UNIQUE constraint failed: pdfs.pdf_hash''
      else (let new_id = next_rowid (map pdf_id (pdfs d)) (pdfs_seq d);
                row = \<lparr>pdf_id = new_id, title = ttl, file_path = path, pdf_hash = h,
                       file_size = sz, page_count = pages, created_at = current_timestamp d\<rparr>
            in Returns (new_id, d\<lparr>pdfs := pdfs d @ [row], pdfs_seq := new_id\<rparr>)))"

text \<open>
  \<open>add_pdf\<close> on its own connection while other requests write: \<open>others\<close> is what the
  other connections commit between the \<open>SELECT\<close> and the \<open>INSERT\<close> of this call.  The
  body of \<open>add_pdf\<close> is \<open>try: ... finally: conn.close()\<close>, with no \<open>except\<close> clause, so
  what the \<open>INSERT\<close> raises leaves the function.  With no other writer this is
  \<open>add_pdf\<close>.
\<close>

definition add_pdf_among :: "(db \<Rightarrow> db) \<Rightarrow> db \<Rightarrow> string \<Rightarrow> string \<Rightarrow> string \<Rightarrow> nat \<Rightarrow> nat \<Rightarrow> (nat \<times> db) outcome" where
  "add_pdf_among others d ttl path h sz pages =
     (case find (\<lambda>r. pdf_hash r = h) (pdfs d) of
        Some existing_pdf \<Rightarrow> Returns (pdf_id existing_pdf, d)
      | None \<Rightarrow> insert_pdf (others d) ttl path h sz pages)"


section \<open>IngestPipeline: \<open>process_pdf\<close> in \<open>app.py\<close>\<close>

subsection \<open>JSON values and responses\<close>

text \<open>
  What \<open>json.loads\<close> builds and \<open>jsonify\<close> sends.  An object keeps its members in
  order; a float is kept as its literal.
\<close>

datatype json =
    JNull
  | JBool bool
  | JInt int
  | JFloat string
  | JStr string
  | JArr "json list"
  | JObj "(string \<times> json) list"

text \<open>The lines of the streamed response of \<open>process_pdf\<close>, by their \<open>type\<close> member.\<close>

record page_data =
  pd_page_number :: nat
  pd_image :: string
  pd_explanation :: string
  pd_audio :: string
  pd_audio_url :: string
  pd_image_url :: string

datatype event =
    Info nat string
  | Progress int nat nat
  | Page page_data
  | Complete string
  | Error string

text \<open>A route returns a JSON body with a status code, or a streamed response.\<close>

datatype response = Json_Response nat json | Stream_Response "event list"

subsection \<open>String helpers\<close>

definition endswith :: "string \<Rightarrow> string \<Rightarrow> bool" where
  "endswith s suffix = (length suffix \<le> length s \<and> drop (length s - length suffix) s = suffix)"

text \<open>\<open>os.path.basename\<close> and the root part of \<open>os.path.splitext\<close>, on POSIX paths.\<close>

definition basename :: "string \<Rightarrow> string" where
  "basename p = rev (takeWhile (\<lambda>c. c \<noteq> CHR ''/'') (rev p))"

definition splitext_root :: "string \<Rightarrow> string" where
  "splitext_root p =
     (if CHR ''.'' \<notin> set p then p
      else (let root = rev (tl (dropWhile (\<lambda>c. c \<noteq> CHR ''.'') (rev p)))
            in if list_all (\<lambda>c. c = CHR ''.'') root then p else root))"

text \<open>\<open>re.sub(r'[^\w\-]', '_', name).lower()\<close>.\<close>

definition is_word_char :: "char \<Rightarrow> bool" where
  "is_word_char c =
     (c \<in> set ''abcdefghijklmnopqrstuvwxyzABCDEFGHIJKLMNOPQRSTUVWXYZ0123456789_'')"

definition clean_name :: "string \<Rightarrow> string" where
  "clean_name name =
     map ascii_lower (map (\<lambda>c. if is_word_char c \<or> c = CHR ''-'' then c else CHR ''_'') name)"

text \<open>Python's \<open>str.isspace\<close> on ASCII, for \<open>strip()\<close> and for \<open>\s\<close>.\<close>

definition is_space :: "char \<Rightarrow> bool" where
  "is_space c = (c \<in> set [CHR 0x09, CHR 0x0A, CHR 0x0B, CHR 0x0C, CHR 0x0D,
                            CHR 0x1C, CHR 0x1D, CHR 0x1E, CHR 0x1F, CHR 0x20])"

definition strip :: "string \<Rightarrow> string" where
  "strip s = rev (dropWhile is_space (rev (dropWhile is_space s)))"

text \<open>
  \<open>re.sub(r'\*\*(.*?)\*\*', r'\1', text)\<close>.  \<open>find_close\<close> looks, after an opening
  \<open>**\<close>, for the nearest closing \<open>**\<close> on the same line and returns the text between
  and the text after.
\<close>

fun find_close :: "string \<Rightarrow> (string \<times> string) option" where
  "find_close [] = None"
| "find_close [c] = None"
| "find_close (c # d # cs) =
     (if c = CHR ''*'' \<and> d = CHR ''*'' then Some ([], cs)
      else if c = CHR 0x0A then None
      else (case find_close (d # cs) of
              None \<Rightarrow> None
            | Some (inner, rest) \<Rightarrow> Some (c # inner, rest)))"

function sub_bold :: "string \<Rightarrow> string" where
  "sub_bold [] = []"
| "sub_bold [c] = [c]"
| "sub_bold (c # d # cs) =
     (if c = CHR ''*'' \<and> d = CHR ''*'' then
        (case find_close cs of
           Some (inner, rest) \<Rightarrow> inner @ sub_bold rest
         | None \<Rightarrow> c # sub_bold (d # cs))
      else c # sub_bold (d # cs))"
  by pat_completeness auto
termination
proof (relation "measure length")
  show "wf (measure length)" by simp
next
  fix c d :: char and cs :: string and x2 :: "string \<times> string" and inner rest :: string
  assume "find_close cs = Some x2" and "(inner, rest) = x2"
  then have fc: "find_close cs = Some (inner, rest)" by simp
  have "find_close s = Some (i, r) \<Longrightarrow> length r \<le> length s" for s i r
    by (induction s arbitrary: i r rule: find_close.induct)
       (auto split: if_splits option.splits prod.splits)
  from this[OF fc] show "(rest, c # d # cs) \<in> measure length" by simp
qed auto

text \<open>
  The text sent to the narration service for a page: emphasis markers removed, a
  placeholder sentence when nothing is left, cut after 5000 characters.
\<close>

definition speech_text_of :: "nat \<Rightarrow> string \<Rightarrow> string" where
  "speech_text_of page_number explanation =
     (let speech_text = filter (\<lambda>c. c \<noteq> CHR ''*'') (sub_bold explanation);
          speech_text = (if strip speech_text = []
                         then ''Page '' @ str_nat page_number @ '' content could not be processed properly.''
                         else speech_text)
      in if length speech_text > 5000
         then take 5000 speech_text @ ''... The rest of the content has been truncated for processing.''
         else speech_text)"

subsection \<open>The environment of an ingestion\<close>

text \<open>
  A rasterised page is identified with the JPEG bytes \<open>image.save\<close> writes for it.
  The services the pipeline calls are functions of what they are given, free to return
  or to raise:
  \<^item> \<open>calculate_file_hash\<close>: the SHA-256 hex digest of the uploaded bytes;
  \<^item> \<open>convert_from_path\<close>: the rasteriser, on the uploaded bytes;
  \<^item> \<open>generate_content\<close>: the model's \<open>response.text\<close> for a prompt and an image;
  \<^item> \<open>text_to_speech\<close>: the narration request for a speech text, after
    \<open>raise_for_status\<close> and \<open>json()\<close>: the decoded \<open>audioContent\<close>, or \<open>None\<close> when the
    reply has no such member;
  \<^item> \<open>fs_write\<close>: writing a local file (path, content) inside the stream;
  \<^item> \<open>b64encode\<close>: \<open>base64.b64encode(...).decode()\<close>;
  \<^item> \<open>time_now\<close>: \<open>int(time.time())\<close>.
  The local file operations of the handler before the stream starts (saving and
  removing the scratch upload, \<open>os.makedirs\<close>, \<open>os.path.getsize\<close>) are taken to succeed.
\<close>

type_synonym image = string

record ingest_env =
  cloud :: cloud_env
  calculate_file_hash :: "string \<Rightarrow> string"
  convert_from_path :: "string \<Rightarrow> image list outcome"
  generate_content :: "string \<Rightarrow> image \<Rightarrow> string outcome"
  text_to_speech :: "string \<Rightarrow> string option outcome"
  fs_write :: "string \<Rightarrow> string \<Rightarrow> unit outcome"
  b64encode :: "string \<Rightarrow> string"
  time_now :: nat

definition UPLOAD_FOLDER :: string where "UPLOAD_FOLDER = ''uploads''"
definition GCS_PDF_PREFIX :: string where "GCS_PDF_PREFIX = ''pdfs/''"
definition GCS_IMAGE_PREFIX :: string where "GCS_IMAGE_PREFIX = ''images/''"
definition GCS_AUDIO_PREFIX :: string where "GCS_AUDIO_PREFIX = ''audio/''"
definition GCS_TEXT_PREFIX :: string where "GCS_TEXT_PREFIX = ''text/''"

definition explain_prompt :: "string \<Rightarrow> string" where
  "explain_prompt difficulty_level =
     ''Please explain this page in '' @ difficulty_level @
     '', including any formulas or mathematical expressions. Make sure to explain them in a way that would be easy to read aloud. Give a '' @ [CHR 0x27] @ ''.'' @ [CHR 0x27] @
     '' after a long pause and a '' @ [CHR 0x27] @ '';'' @ [CHR 0x27] @
     '' after a medium pause based on the importance of the words. Preserve all formatting, including paragraph breaks. Also dont use any sub scripting symbols or special characters, instead read it aloud. Dont repeat content from the previous page and useless information in the header and footer.''"

subsection \<open>One page\<close>

text \<open>
  \<open>int(x)\<close> on a float truncates towards zero.  The quotient is taken in the reals:
  Python's \<open>/\<close> returns the double nearest to it, which truncates to the same integer
  as long as there are fewer than \<open>2 ^ 47\<close> pages.
\<close>

definition py_int :: "real \<Rightarrow> int" where
  "py_int x = (if 0 \<le> x then \<lfloor>x\<rfloor> else \<lceil>x\<rceil>)"

definition progress_percentage :: "nat \<Rightarrow> nat \<Rightarrow> int" where
  "progress_percentage page_number page_count' =
     30 + py_int (real_of_int ((int page_number - 1) * 65) / real page_count')"

text \<open>
  The explanation of a page.  The model call, the write of the text file and the
  upload share one handler, which puts an error-describing text in the place of the
  explanation and writes that to the text file; this last write has no handler of
  its own.
\<close>

definition failed_explanation :: "nat \<Rightarrow> string \<Rightarrow> string" where
  "failed_explanation page_number e =
     ''Failed to generate explanation for page '' @ str_nat page_number @ '': '' @ e"

definition explain_page :: "ingest_env \<Rightarrow> string \<Rightarrow> string \<Rightarrow> nat \<Rightarrow> image \<Rightarrow> string outcome" where
  "explain_page env pdf_id' difficulty_level page_number img =
     (let temp_folder = UPLOAD_FOLDER @ ''/'' @ pdf_id';
          text_path = temp_folder @ ''/'' @ pdf_id' @ ''_page_'' @ str_nat page_number @ ''.md'';
          gcs_text_path = GCS_TEXT_PREFIX @ pdf_id' @ ''/page_'' @ str_nat page_number @ ''.md'';
          attempt =
            (case generate_content env (explain_prompt difficulty_level) img of
               Raises e \<Rightarrow> Raises e
             | Returns explanation \<Rightarrow>
                 (case fs_write env text_path explanation of
                    Raises e \<Rightarrow> Raises e
                  | Returns u \<Rightarrow>
                      (case upload_file (cloud env) explanation gcs_text_path DEFAULT_BUCKET_NAME
                              (Some ''text/markdown'') of
                         Raises e \<Rightarrow> Raises e
                       | Returns r \<Rightarrow> Returns explanation)))
      in case attempt of
           Returns explanation \<Rightarrow> Returns explanation
         | Raises e \<Rightarrow>
             (let explanation = failed_explanation page_number e
              in case fs_write env text_path explanation of
                   Raises e' \<Rightarrow> Raises e'
                 | Returns u \<Rightarrow> Returns explanation))"

text \<open>
  The audio of a page.  Everything from the request to the local save is under one
  handler, which leaves empty bytes; the upload that follows has its own handler and
  its result is not used.
\<close>

definition narrate_page :: "ingest_env \<Rightarrow> string \<Rightarrow> nat \<Rightarrow> string \<Rightarrow> string" where
  "narrate_page env pdf_id' page_number explanation =
     (let temp_folder = UPLOAD_FOLDER @ ''/'' @ pdf_id';
          local_audio_path = temp_folder @ ''/audio_files/'' @ pdf_id' @ ''_page_'' @
                               str_nat page_number @ ''.mp3''
      in case text_to_speech env (speech_text_of page_number explanation) of
           Raises e \<Rightarrow> []
         | Returns None \<Rightarrow> []
         | Returns (Some audio_data) \<Rightarrow>
             if length audio_data = 0 then []
             else (case fs_write env local_audio_path audio_data of
                     Raises e \<Rightarrow> []
                   | Returns u \<Rightarrow> audio_data))"

text \<open>
  The body of the loop for one page: the events it yields and, when an exception
  leaves the loop, its message.
\<close>

definition process_page :: "ingest_env \<Rightarrow> string \<Rightarrow> string \<Rightarrow> nat \<Rightarrow> nat \<Rightarrow> image \<Rightarrow> event list \<times> string option" where
  "process_page env pdf_id' difficulty_level page_count' page_number img =
     (let progress = Progress (progress_percentage page_number page_count') page_number page_count';
          temp_folder = UPLOAD_FOLDER @ ''/'' @ pdf_id';
          temp_img_path = temp_folder @ ''/page_'' @ str_nat page_number @ ''.jpg''
      in case fs_write env temp_img_path img of
           Raises e \<Rightarrow> ([progress], Some e)
         | Returns u \<Rightarrow>
             (let img_str = b64encode env img
              in case explain_page env pdf_id' difficulty_level page_number img of
                   Raises e \<Rightarrow> ([progress], Some e)
                 | Returns explanation \<Rightarrow>
                     (let audio_data = narrate_page env pdf_id' page_number explanation;
                          audio_str = b64encode env audio_data
                      in ([progress,
                           Page \<lparr>pd_page_number = page_number,
                                 pd_image = img_str,
                                 pd_explanation = explanation,
                                 pd_audio = audio_str,
                                 pd_audio_url = ''/pdf/'' @ pdf_id' @ ''/audio/'' @ str_nat page_number,
                                 pd_image_url = ''/pdf/'' @ pdf_id' @ ''/image/'' @ str_nat page_number\<rparr>],
                          None))))"

text \<open>\<open>for i, image in enumerate(images)\<close>, from index \<open>i\<close> on.\<close>

fun process_pages :: "ingest_env \<Rightarrow> string \<Rightarrow> string \<Rightarrow> nat \<Rightarrow> nat \<Rightarrow> image list \<Rightarrow> event list \<times> string option" where
  "process_pages env pdf_id' difficulty_level page_count' i [] = ([], None)"
| "process_pages env pdf_id' difficulty_level page_count' i (img # images) =
     (case process_page env pdf_id' difficulty_level page_count' (i + 1) img of
        (evs, Some e) \<Rightarrow> (evs, Some e)
      | (evs, None) \<Rightarrow>
          (case process_pages env pdf_id' difficulty_level page_count' (i + 1) images of
             (evs', r) \<Rightarrow> (evs @ evs', r)))"

subsection \<open>The stream and the handler\<close>

text \<open>
  \<open>generate\<close>: rasterise, record the PDF and the link, announce the page count, run
  the pages, finish.  An exception anywhere ends the stream with an \<open>error\<close> line,
  after the lines already sent.  The result is the whole stream and the database
  after it.
\<close>

definition generate :: "ingest_env \<Rightarrow> db \<Rightarrow> nat \<Rightarrow> string \<Rightarrow> string \<Rightarrow> string \<Rightarrow> nat \<Rightarrow> string \<Rightarrow> string \<Rightarrow> event list \<times> db" where
  "generate env d user_id original_pdf_name pdf_id' pdf_hash' file_size' difficulty_level pdf_bytes =
     (case convert_from_path env pdf_bytes of
        Raises e \<Rightarrow> ([Error e], d)
      | Returns images \<Rightarrow>
          (let page_count' = length images;
               (pdf_db_id, d1) = add_pdf d original_pdf_name pdf_id' pdf_hash' file_size' page_count';
               (link, d2) = associate_pdf_with_user d1 user_id pdf_db_id
           in case process_pages env pdf_id' difficulty_level page_count' 0 images of
                (evs, Some e) \<Rightarrow> (Info page_count' pdf_id' # evs @ [Error e], d2)
              | (evs, None) \<Rightarrow> (Info page_count' pdf_id' # evs @ [Complete pdf_id'], d2)))"

text \<open>
  The request as \<open>process_pdf\<close> reads it, after \<open>login_required\<close> has put the user in
  place: the uploaded file, if any, with its name and bytes, the form field, the
  user's id.
\<close>

record upload =
  up_filename :: string
  up_bytes :: string

record request =
  req_file :: "upload option"
  req_difficulty_level :: "string option"
  req_user_id :: nat

definition error_body :: "string \<Rightarrow> json" where
  "error_body msg = JObj [(''error'', JStr msg)]"

definition existing_body :: "string \<Rightarrow> json" where
  "existing_body pdf_name =
     JObj [(''type'', JStr ''existing''),
           (''pdf_name'', JStr pdf_name),
           (''message'', JStr ''PDF already exists, associating with your account'')]"

definition process_pdf :: "ingest_env \<Rightarrow> db \<Rightarrow> request \<Rightarrow> response \<times> db" where
  "process_pdf env d req =
     (case req_file req of
        None \<Rightarrow> (Json_Response 400 (error_body ''No file provided''), d)
      | Some file \<Rightarrow>
          if up_filename file = [] then (Json_Response 400 (error_body ''No file selected''), d)
          else if \<not> endswith (up_filename file) ''.pdf''
          then (Json_Response 400 (error_body ''File must be a PDF''), d)
          else
            (let difficulty_level = (case req_difficulty_level req of
                                       None \<Rightarrow> ''detailed'' | Some l \<Rightarrow> l);
                 original_pdf_name = splitext_root (basename (up_filename file));
                 pdf_name = clean_name original_pdf_name;
                 user_id = req_user_id req;
                 pdf_hash' = calculate_file_hash env (up_bytes file)
             in case get_pdf_by_hash d pdf_hash' of
                  Some existing_pdf \<Rightarrow>
                    (let (link, d') = associate_pdf_with_user d user_id (pdf_id existing_pdf)
                     in (Json_Response 200 (existing_body (file_path existing_pdf)), d'))
                | None \<Rightarrow>
                    (let pdf_id' = pdf_name @ ''_'' @ str_nat (time_now env);
                         file_size' = length (up_bytes file);
                         (events, d') = generate env d user_id original_pdf_name pdf_id' pdf_hash'
                                          file_size' difficulty_level (up_bytes file)
                     in (Stream_Response events, d'))))"


subsection \<open>Reading a stream\<close>

text \<open>
  The page numbers of the \<open>page\<close> lines of a stream and the values and the lines of
  its \<open>progress\<close> lines, in order; whether a line is an \<open>error\<close> line.
\<close>

definition page_numbers :: "event list \<Rightarrow> nat list" where
  "page_numbers evs = concat (map (\<lambda>ev. case ev of Page pd \<Rightarrow> [pd_page_number pd] | _ \<Rightarrow> []) evs)"

definition progress_values :: "event list \<Rightarrow> int list" where
  "progress_values evs = concat (map (\<lambda>ev. case ev of Progress v i n \<Rightarrow> [v] | _ \<Rightarrow> []) evs)"

definition progress_lines :: "event list \<Rightarrow> (int \<times> nat \<times> nat) list" where
  "progress_lines evs = concat (map (\<lambda>ev. case ev of Progress v i n \<Rightarrow> [(v, i, n)] | _ \<Rightarrow> []) evs)"

definition is_error :: "event \<Rightarrow> bool" where
  "is_error ev = (case ev of Error e \<Rightarrow> True | _ \<Rightarrow> False)"

subsection \<open>Concrete environments\<close>

text \<open>
  Services that work: a three-page PDF, a model and a narration service that answer,
  a local disk that takes every write, no remote tier.  And the same with a model and
  a narration service that fail on every call.
\<close>

definition b64_table :: "string \<Rightarrow> string" where
  "b64_table s =
     (case map_of [(''JPEG1'', ''SlBFRzE=''), (''JPEG2'', ''SlBFRzI=''), (''JPEG3'', ''SlBFRzM=''),
                   (''MP3'', ''TVAz'')] s of
        Some t \<Rightarrow> t
      | None \<Rightarrow> [])"

definition working_env :: ingest_env where
  "working_env =
     \<lparr>cloud = local_only_env,
      calculate_file_hash = (\<lambda>bytes. if bytes = ''%PDF-1.4 notes'' then ''9f86d081884c7d65''
                                      else ''e3b0c44298fc1c14''),
      convert_from_path = (\<lambda>bytes. Returns [''JPEG1'', ''JPEG2'', ''JPEG3'']),
      generate_content = (\<lambda>prompt img. Returns ''This page introduces limits.''),
      text_to_speech = (\<lambda>speech_text. Returns (Some ''MP3'')),
      fs_write = (\<lambda>path bytes. Returns ()),
      b64encode = b64_table,
      time_now = 1700000000\<rparr>"


definition empty_catalog :: db where
  "empty_catalog = \<lparr>pdfs = [], pdfs_seq = 0, user_pdfs = [], user_pdfs_seq = 0, current_timestamp = 0\<rparr>"

definition notes_request :: request where
  "notes_request =
     \<lparr>req_file = Some \<lparr>up_filename = ''Notes.pdf'', up_bytes = ''%PDF-1.4 notes''\<rparr>,
      req_difficulty_level = None,
      req_user_id = 8\<rparr>"


section \<open>RetrievalService: \<open>generate_quiz\<close> in \<open>app.py\<close>\<close>

subsection \<open>Cleaning the model's answer\<close>







subsection \<open>The shape check\<close>



subsection \<open>The environment of a quiz request\<close>





subsection \<open>Generating the quiz\<close>



subsection \<open>The promised shape, and concrete requests\<close>














section \<open>Concrete catalog states\<close>

text \<open>
  A catalog holding one processed PDF, linked to user 7; and a catalog after
  \<open>note.pdf\<close> and \<open>notes.pdf\<close>, of different content, were ingested a hundred seconds
  apart.
\<close>

definition catalog_one :: db where
  "catalog_one =
     \<lparr>pdfs = [\<lparr>pdf_id = 1, title = ''notes'', file_path = ''notes_1700000000'',
               pdf_hash = ''9f86d081884c7d65'', file_size = 2048, page_count = 3, created_at = 0\<rparr>],
      pdfs_seq = 1,
      user_pdfs = [\<lparr>link_id = 1, link_user_id = 7, link_pdf_id = 1, uploaded_at = 0\<rparr>],
      user_pdfs_seq = 1,
      current_timestamp = 5\<rparr>"

definition catalog_two :: db where
  "catalog_two =
     \<lparr>pdfs = [\<lparr>pdf_id = 1, title = ''note'', file_path = ''note_1700000000'',
               pdf_hash = ''2c26b46b68ffc68f'', file_size = 1024, page_count = 1, created_at = 0\<rparr>,
              \<lparr>pdf_id = 2, title = ''notes'', file_path = ''notes_1700000100'',
               pdf_hash = ''9f86d081884c7d65'', file_size = 2048, page_count = 3, created_at = 100\<rparr>],
      pdfs_seq = 2,
      user_pdfs = [],
      user_pdfs_seq = 0,
      current_timestamp = 200\<rparr>"

text \<open>
  The reading of the version lookup by names: a stored key is a version of a base name
  when it is the base name, or the base name, an underscore and a non-empty suffix.
\<close>

definition extends_base_name :: "string \<Rightarrow> string \<Rightarrow> bool" where
  "extends_base_name base_name path =
     (path = base_name \<or>
      (take (Suc (length base_name)) path = base_name @ ''_'' \<and> Suc (length base_name) < length path))"


section \<open>Catalog: inserting and linking\<close>

lemma find_None_filter: "find P xs = None \<longleftrightarrow> filter P xs = []"
  by (induction xs) auto

lemma find_Some_filter: "find P xs = Some y \<Longrightarrow> filter P xs \<noteq> []"
  by (induction xs) (auto split: if_splits)

lemma find_snoc:
  "find P (xs @ [x]) = (case find P xs of Some y \<Rightarrow> Some y | None \<Rightarrow> if P x then Some x else None)"
  by (induction xs) auto

lemma find_unique_hash:
  assumes "distinct (map pdf_hash rows)" "r \<in> set rows"
  shows "find (\<lambda>x. pdf_hash x = pdf_hash r) rows = Some r"
  using assms by (induction rows) (auto simp: rev_image_eqI)

lemma find_unique_row:
  assumes "length (filter P rows) \<le> 1" "r \<in> set rows" "P r"
  shows "find P rows = Some r"
  using assms
proof (induction rows)
  case Nil
  then show ?case by simp
next
  case (Cons a rows)
  show ?case
  proof (cases "P a")
    case True
    with Cons.prems have "filter P rows = []" by simp
    then have "\<forall>x\<in>set rows. \<not> P x" by (simp add: filter_empty_conv)
    with Cons.prems True show ?thesis by auto
  next
    case False
    with Cons show ?thesis by auto
  qed
qed

text \<open>
  In a catalog whose \<open>pdf_hash\<close> column is unique, as the schema declares it,
  \<open>add_pdf\<close> called with the hash of a stored row returns the id of that row and the
  database it was given: the lookup finds the row, and the \<open>INSERT\<close> is not reached.
\<close>

lemma add_pdf_existing_hash:
  assumes "distinct (map pdf_hash (pdfs d))" and "r \<in> set (pdfs d)" and "pdf_hash r = h"
  shows "add_pdf d ttl path h sz pages = (pdf_id r, d)"
  using find_unique_hash[OF assms(1,2)] assms(3) by (simp add: add_pdf_def)

text \<open>With no other writer, the call among others is the call alone, and returns.\<close>

lemma add_pdf_among_alone:
  "add_pdf_among (\<lambda>d. d) d ttl path h sz pages = Returns (add_pdf d ttl path h sz pages)"
proof (cases "find (\<lambda>r. pdf_hash r = h) (pdfs d)")
  case None
  then have "\<not> list_ex (\<lambda>r. pdf_hash r = h) (pdfs d)"
    by (simp add: find_None_iff list_ex_iff)
  with None show ?thesis
    by (simp add: add_pdf_among_def insert_pdf_def add_pdf_def Let_def)
next
  case (Some r)
  then show ?thesis by (simp add: add_pdf_among_def add_pdf_def)
qed

text \<open>
  C6.  Two requests ingest the same new PDF (hash \<open>9f86d081884c7d65\<close>) on an empty
  catalog.  The first call of \<open>add_pdf\<close> looks the hash up and finds nothing; the
  second request's \<open>add_pdf\<close> then runs to its end and commits its row; the \<open>INSERT\<close>
  of the first call now meets a record with the hash and raises the uniqueness
  violation to its caller, where the claim has it fetch the existing record.  A call
  that starts after the commit finds the row: it returns the id 1 and leaves the
  database as it is.
\<close>

theorem add_pdf_uniqueness_violation_raises:
  "add_pdf_among (\<lambda>d. snd (add_pdf d ''Notes'' ''notes_1700000001'' ''9f86d081884c7d65'' 14 3))
       empty_catalog ''Notes'' ''notes_1700000000'' ''9f86d081884c7d65'' 14 3 =
     Raises ''UNIQUE constraint failed: pdfs.pdf_hash'' \<and>
   add_pdf (snd (add_pdf empty_catalog ''Notes'' ''notes_1700000001'' ''9f86d081884c7d65'' 14 3))
       ''Notes'' ''notes_1700000000'' ''9f86d081884c7d65'' 14 3 =
     (1, snd (add_pdf empty_catalog ''Notes'' ''notes_1700000001'' ''9f86d081884c7d65'' 14 3))"
  by (simp add: add_pdf_among_def insert_pdf_def add_pdf_def empty_catalog_def next_rowid_def Let_def)

lemma add_pdf_new_hash:
  assumes "\<forall>r \<in> set (pdfs d). pdf_hash r \<noteq> h"
  shows "length (pdfs (snd (add_pdf d ttl path h sz pages))) = Suc (length (pdfs d))"
proof -
  have "find (\<lambda>r. pdf_hash r = h) (pdfs d) = None"
    using assms by (simp add: find_None_filter filter_empty_conv)
  then show ?thesis by (simp add: add_pdf_def Let_def)
qed

lemma link_count_associate:
  "link_count (snd (associate_pdf_with_user d uid pid)) u p =
     (if u = uid \<and> p = pid \<and> link_count d uid pid = 0 then 1 else link_count d u p)"
  by (auto simp: associate_pdf_with_user_def link_count_def Let_def find_None_filter
           dest: find_Some_filter split: option.splits)

lemma associate_all_invariant:
  "\<forall>u p. link_count d u p \<le> 1 \<Longrightarrow> \<forall>u p. link_count (associate_all d calls) u p \<le> 1"
proof (induction calls arbitrary: d)
  case Nil
  then show ?case by simp
next
  case (Cons c calls)
  obtain uid pid where c: "c = (uid, pid)" by (cases c)
  have "\<forall>u p. link_count (snd (associate_pdf_with_user d uid pid)) u p \<le> 1"
    using Cons.prems by (simp add: link_count_associate)
  from Cons.IH[OF this] show ?case by (simp add: c)
qed

text \<open>
  C9.  From a link table with at most one row per (user, pdf) pair:
  \<open>associate_pdf_with_user\<close> called for the pair of a stored link returns that link's id
  and the database unchanged; a second call for any pair returns what the first
  returned and changes nothing more; and after every sequence of calls there is still
  at most one row per pair.
\<close>

theorem associate_pdf_with_user_idempotent:
  assumes inv: "\<forall>u p. link_count d u p \<le> 1"
  shows "(\<forall>r \<in> set (user_pdfs d).
            associate_pdf_with_user d (link_user_id r) (link_pdf_id r) = (link_id r, d)) \<and>
         associate_pdf_with_user (snd (associate_pdf_with_user d uid pid)) uid pid =
            (fst (associate_pdf_with_user d uid pid), snd (associate_pdf_with_user d uid pid)) \<and>
         (\<forall>u p. link_count (associate_all d calls) u p \<le> 1)"
proof (intro conjI ballI)
  fix r assume r: "r \<in> set (user_pdfs d)"
  have "length (filter (\<lambda>x. link_user_id x = link_user_id r \<and> link_pdf_id x = link_pdf_id r)
                  (user_pdfs d)) \<le> 1"
    using inv by (simp add: link_count_def)
  from find_unique_row[OF this r]
  show "associate_pdf_with_user d (link_user_id r) (link_pdf_id r) = (link_id r, d)"
    by (simp add: associate_pdf_with_user_def)
next
  show "associate_pdf_with_user (snd (associate_pdf_with_user d uid pid)) uid pid =
          (fst (associate_pdf_with_user d uid pid), snd (associate_pdf_with_user d uid pid))"
    by (simp add: associate_pdf_with_user_def Let_def find_snoc split: option.splits)
next
  show "\<forall>u p. link_count (associate_all d calls) u p \<le> 1"
    using inv by (rule associate_all_invariant)
qed

lemma link_count_catalog_one: "link_count catalog_one u p \<le> 1"
  by (simp add: link_count_def catalog_one_def)

theorem associate_pdf_with_user_idempotent_witness:
  "(\<forall>u p. link_count catalog_one u p \<le> 1) \<and>
   associate_pdf_with_user catalog_one 7 1 = (1, catalog_one) \<and>
   associate_pdf_with_user (snd (associate_pdf_with_user catalog_one 8 1)) 8 1 =
     (2, snd (associate_pdf_with_user catalog_one 8 1)) \<and>
   link_count (associate_all catalog_one [(8, 1), (7, 1), (8, 1)]) 8 1 \<le> 1"
proof -
  have inv: "\<forall>u p. link_count catalog_one u p \<le> 1"
    using link_count_catalog_one by blast
  have fst8: "fst (associate_pdf_with_user catalog_one 8 1) = 2"
    by (simp add: associate_pdf_with_user_def catalog_one_def next_rowid_def Let_def)
  have mem: "\<lparr>link_id = 1, link_user_id = 7, link_pdf_id = 1, uploaded_at = 0\<rparr>
               \<in> set (user_pdfs catalog_one)"
    by (simp add: catalog_one_def)
  from associate_pdf_with_user_idempotent[OF inv, of 8 1 "[(8, 1), (7, 1), (8, 1)]"] mem fst8 inv
  show ?thesis by fastforce
qed


section \<open>Catalog: the version lookup\<close>

lemma sql_like_same_head: "sql_like ps cs \<Longrightarrow> sql_like (c # ps) (c # cs)"
  by (cases cs; cases ps) auto

lemma sql_like_percent: "sql_like ''%'' s"
  by (induction s) auto

lemma sql_like_one_more: "sql_like (b @ ''_%'') (b @ c # s)"
proof (induction b)
  case Nil
  show ?case using sql_like_percent[of s] by (cases s) auto
next
  case (Cons a b)
  then show ?case using sql_like_same_head by simp
qed

text \<open>
  Every stored key that is the base name, or the base name followed by one more
  character of any kind and any rest, is among the versions returned.
\<close>

lemma get_pdf_versions_by_name_includes:
  assumes "r \<in> set (pdfs d)" and "file_path r = base_name \<or> file_path r = base_name @ c # rest"
  shows "file_path r \<in> set (get_pdf_versions_by_name d base_name)"
proof -
  from assms(2) show ?thesis
  proof
    assume "file_path r = base_name"
    with assms(1) show ?thesis by (auto simp: get_pdf_versions_by_name_def)
  next
    assume "file_path r = base_name @ c # rest"
    then have "sql_like (base_name @ ''_%'') (file_path r)" by (simp add: sql_like_one_more)
    with assms(1) show ?thesis by (auto simp: get_pdf_versions_by_name_def)
  qed
qed

text \<open>
  C10.  With \<open>note_1700000000\<close> and \<open>notes_1700000100\<close> stored, the lookup for the base
  name \<open>note\<close> returns both keys: the \<open>_\<close> of the pattern \<open>note_%\<close> is the one-character
  wildcard of \<open>LIKE\<close> and matches the \<open>s\<close>.  The second key does not extend the base
  name with an underscore.
\<close>

theorem get_pdf_versions_by_name_wildcard:
  "get_pdf_versions_by_name catalog_two ''note'' = [''note_1700000000'', ''notes_1700000100''] \<and>
   \<not> extends_base_name ''note'' ''notes_1700000100''"
  by (simp add: get_pdf_versions_by_name_def catalog_two_def ascii_lower_def extends_base_name_def)


section \<open>ContentStore: failures of the remote tier\<close>


lemma upload_from_file_never_raises: "upload_from_file env f p b t \<noteq> Raises e"
  by (simp add: upload_from_file_def split: option.splits outcome.splits)

lemma upload_from_filename_never_raises: "upload_from_filename env l p b t \<noteq> Raises e"
  by (simp add: upload_from_filename_def split: option.splits outcome.splits)

lemma generate_signed_url_never_raises: "generate_signed_url env p b m \<noteq> Raises e"
  by (simp add: generate_signed_url_def split: option.splits outcome.splits bool.splits)

lemma download_as_string_never_raises: "download_as_string env p b \<noteq> Raises e"
  by (simp add: download_as_string_def split: option.splits outcome.splits)

lemma check_if_file_exists_never_raises: "check_if_file_exists env p b \<noteq> Raises e"
  by (simp add: check_if_file_exists_def split: option.splits outcome.splits)

lemma list_files_with_prefix_never_raises: "list_files_with_prefix env p b \<noteq> Raises e"
  by (simp add: list_files_with_prefix_def split: option.splits outcome.splits)

lemma download_file_without_client:
  "get_storage_client env = None \<Longrightarrow> download_file env p l b = Returns None"
  by (simp add: download_file_def)

text \<open>
  C4.  With a client at hand and a remote tier that answers every storage operation
  with an error, \<open>download_file\<close> raises that error to its caller (here on the download
  of the catalog file that \<open>ensure_db_exists\<close> asks for), where \<open>download_as_string\<close>
  on the same key returns \<open>None\<close>.
\<close>

theorem download_file_raises:
  "download_file unreachable_env ''database/studybuddy.db'' ''instance/studybuddy.db''
       DEFAULT_BUCKET_NAME = Raises ''503 Service Unavailable'' \<and>
   download_as_string unreachable_env ''database/studybuddy.db'' DEFAULT_BUCKET_NAME = Returns None"
  by (simp add: download_file_def download_as_string_def get_storage_client_def
        unreachable_env_def unreachable_client_def)


section \<open>IngestPipeline: pages and progress\<close>

declare str_nat.simps [simp del]

lemma progress_percentage_div:
  assumes "1 \<le> i"
  shows "progress_percentage i N = 30 + ((int i - 1) * 65) div int N"
proof -
  have nonneg: "(0::real) \<le> real_of_int ((int i - 1) * 65) / real N"
    using assms by simp
  have "real_of_int ((int i - 1) * 65) / real N =
        real_of_int ((int i - 1) * 65) / real_of_int (int N)"
    by simp
  then have "\<lfloor>real_of_int ((int i - 1) * 65) / real N\<rfloor> = ((int i - 1) * 65) div int N"
    by (simp only: floor_divide_of_int_eq)
  with nonneg show ?thesis
    by (simp only: progress_percentage_def py_int_def if_True)
qed

text \<open>A page either leaves the loop after its progress line or yields both its lines.\<close>

lemma process_page_cases:
  "(\<exists>e. process_page env k dl N j img = ([Progress (progress_percentage j N) j N], Some e)) \<or>
   (\<exists>pd. pd_page_number pd = j \<and>
         process_page env k dl N j img = ([Progress (progress_percentage j N) j N, Page pd], None))"
  by (simp add: process_page_def Let_def split: outcome.splits)

lemma upt_from_Suc: "[Suc i ..< Suc i + Suc n] = Suc i # [Suc (Suc i) ..< Suc (Suc i) + n]"
  using upt_conv_Cons[of "Suc i" "Suc i + Suc n"] by simp

lemma process_pages_completed:
  "process_pages env k dl N i images = (evs, None) \<Longrightarrow>
     page_numbers evs = [Suc i ..< Suc i + length images] \<and>
     progress_lines evs =
       map (\<lambda>j. (progress_percentage j N, j, N)) [Suc i ..< Suc i + length images] \<and>
     \<not> list_ex is_error evs"
proof (induction images arbitrary: i evs)
  case Nil
  then show ?case by (simp add: page_numbers_def progress_lines_def)
next
  case (Cons img images)
  from process_page_cases[of env k dl N "Suc i" img]
  obtain pd where pd: "pd_page_number pd = Suc i"
      and pp: "process_page env k dl N (Suc i) img =
                 ([Progress (progress_percentage (Suc i) N) (Suc i) N, Page pd], None)"
    using Cons.prems by (auto split: prod.splits option.splits)
  obtain evs' r where rest: "process_pages env k dl N (Suc i) images = (evs', r)"
    by (cases "process_pages env k dl N (Suc i) images")
  from Cons.prems pp rest have r: "r = None"
    and evs: "evs = [Progress (progress_percentage (Suc i) N) (Suc i) N, Page pd] @ evs'"
    by auto
  from Cons.IH[OF rest[unfolded r]]
  have IH: "page_numbers evs' = [Suc (Suc i) ..< Suc (Suc i) + length images]"
    "progress_lines evs' =
       map (\<lambda>j. (progress_percentage j N, j, N)) [Suc (Suc i) ..< Suc (Suc i) + length images]"
    "\<not> list_ex is_error evs'"
    by auto
  have up: "[Suc i ..< Suc i + length (img # images)] =
            Suc i # [Suc (Suc i) ..< Suc (Suc i) + length images]"
    using upt_from_Suc[of i "length images"] by simp
  have a: "page_numbers evs = Suc i # page_numbers evs'"
    by (simp add: evs page_numbers_def pd)
  have b: "progress_lines evs = (progress_percentage (Suc i) N, Suc i, N) # progress_lines evs'"
    by (simp add: evs progress_lines_def)
  have c: "list_ex is_error evs = list_ex is_error evs'"
    by (simp add: evs is_error_def)
  show ?case
    unfolding a b c up IH(1,2) using IH(3) by (simp only: list.map simp_thms)
qed

text \<open>
  Whether or not the loop is left early, the progress lines sent are those of the
  pages \<open>i + 1\<close>, \<open>i + 2\<close>, ... in this order, no more than there are pages.
\<close>

lemma process_pages_progress:
  "process_pages env k dl N i images = (evs, r) \<Longrightarrow>
     \<exists>m \<le> length images.
       progress_lines evs = map (\<lambda>j. (progress_percentage j N, j, N)) [Suc i ..< Suc i + m]"
proof (induction images arbitrary: i evs r)
  case Nil
  then show ?case by (simp add: progress_lines_def)
next
  case (Cons img images)
  let ?f = "\<lambda>j. (progress_percentage j N, j, N)"
  from process_page_cases[of env k dl N "Suc i" img] show ?case
  proof (elim disjE exE conjE)
    fix e assume "process_page env k dl N (Suc i) img =
                    ([Progress (progress_percentage (Suc i) N) (Suc i) N], Some e)"
    with Cons.prems have "evs = [Progress (progress_percentage (Suc i) N) (Suc i) N]"
      by simp
    then have "progress_lines evs = map ?f [Suc i ..< Suc i + Suc 0]"
      using upt_from_Suc[of i 0] by (simp add: progress_lines_def)
    moreover have "Suc 0 \<le> length (img # images)" by simp
    ultimately show ?thesis by blast
  next
    fix pd assume pp: "process_page env k dl N (Suc i) img =
                    ([Progress (progress_percentage (Suc i) N) (Suc i) N, Page pd], None)"
    obtain evs' r' where rest: "process_pages env k dl N (Suc i) images = (evs', r')"
      by (cases "process_pages env k dl N (Suc i) images")
    from Cons.prems pp rest
    have evs: "evs = [Progress (progress_percentage (Suc i) N) (Suc i) N, Page pd] @ evs'"
      by auto
    have b: "progress_lines evs = ?f (Suc i) # progress_lines evs'"
      by (simp add: evs progress_lines_def)
    from Cons.IH[OF rest] obtain m where m: "m \<le> length images"
      and IH: "progress_lines evs' = map ?f [Suc (Suc i) ..< Suc (Suc i) + m]"
      by blast
    have "progress_lines evs = map ?f [Suc i ..< Suc i + Suc m]"
      unfolding b IH upt_from_Suc by (simp only: list.map)
    moreover have "Suc m \<le> length (img # images)" using m by simp
    ultimately show ?thesis by blast
  qed
qed

lemma progress_values_lines: "progress_values evs = map fst (progress_lines evs)"
  by (induction evs) (auto simp: progress_values_def progress_lines_def split: event.splits)

text \<open>The shape of a stream once the rasteriser has returned.\<close>

lemma generate_events:
  assumes "convert_from_path env bytes = Returns images"
  shows "\<exists>evs r. process_pages env k dl (length images) 0 images = (evs, r) \<and>
           fst (generate env d u t k h s dl bytes) =
             Info (length images) k # evs @ [case r of None \<Rightarrow> Complete k | Some e \<Rightarrow> Error e]"
proof -
  obtain evs r where pp: "process_pages env k dl (length images) 0 images = (evs, r)"
    by (cases "process_pages env k dl (length images) 0 images")
  then show ?thesis using assms
    by (cases r) (simp_all add: generate_def Let_def split: prod.splits)
qed

lemma stream_observers:
  "page_numbers (Info n k # evs @ [Complete k']) = page_numbers evs"
  "page_numbers (Info n k # evs @ [Error e]) = page_numbers evs"
  "progress_lines (Info n k # evs @ [Complete k']) = progress_lines evs"
  "progress_lines (Info n k # evs @ [Error e]) = progress_lines evs"
  "list_ex is_error (Info n k # evs @ [Complete k']) = list_ex is_error evs"
  "list_ex is_error (Info n k # evs @ [Error e])"
  by (simp_all add: page_numbers_def progress_lines_def is_error_def)

lemma generate_without_error:
  assumes conv: "convert_from_path env bytes = Returns images"
    and ok: "\<not> list_ex is_error (fst (generate env d u t k h s dl bytes))"
  shows "\<exists>evs. process_pages env k dl (length images) 0 images = (evs, None) \<and>
           fst (generate env d u t k h s dl bytes) = Info (length images) k # evs @ [Complete k]"
proof -
  from generate_events[OF conv, of k dl d u t h s]
  obtain evs r where pp: "process_pages env k dl (length images) 0 images = (evs, r)"
    and g: "fst (generate env d u t k h s dl bytes) =
              Info (length images) k # evs @ [case r of None \<Rightarrow> Complete k | Some e \<Rightarrow> Error e]"
    by blast
  have "r = None"
  proof (cases r)
    case None
    then show ?thesis .
  next
    case (Some e)
    with g ok show ?thesis by (simp add: is_error_def)
  qed
  with pp g show ?thesis by simp
qed

text \<open>
  C5.  Once the rasteriser has returned \<open>N\<close> pages, the progress lines of the stream
  are those of the pages \<open>1, 2, ..., m\<close> for some \<open>m \<le> N\<close>, in this order, and the
  line of page \<open>i\<close> carries the value \<open>30 + ((i - 1) * 65) div N\<close>, the page number
  \<open>i\<close> and the page count \<open>N\<close>; in a stream without an error line, \<open>m = N\<close>; and for
  three pages the values are 30, 51, 73.
\<close>

theorem progress_events_formula:
  assumes conv: "convert_from_path env bytes = Returns images"
  shows "(\<exists>m \<le> length images.
            progress_lines (fst (generate env d u t k h s dl bytes)) =
              map (\<lambda>i. (30 + ((int i - 1) * 65) div int (length images), i, length images))
                  [1 ..< Suc m]) \<and>
         (\<not> list_ex is_error (fst (generate env d u t k h s dl bytes)) \<longrightarrow>
            progress_lines (fst (generate env d u t k h s dl bytes)) =
              map (\<lambda>i. (30 + ((int i - 1) * 65) div int (length images), i, length images))
                  [1 ..< Suc (length images)]) \<and>
         (\<not> list_ex is_error (fst (generate env d u t k h s dl bytes)) \<and> length images = 3 \<longrightarrow>
            progress_values (fst (generate env d u t k h s dl bytes)) = [30, 51, 73])"
proof -
  let ?N = "length images"
  let ?g = "fst (generate env d u t k h s dl bytes)"
  let ?f = "\<lambda>i. (30 + ((int i - 1) * 65) div int ?N, i, ?N)"
  have formula: "map (\<lambda>j. (progress_percentage j ?N, j, ?N)) [Suc 0 ..< Suc 0 + m] = map ?f [1 ..< Suc m]"
    for m
  proof (rule map_cong)
    show "[Suc 0 ..< Suc 0 + m] = [1 ..< Suc m]" by simp
  next
    fix j assume "j \<in> set [1 ..< Suc m]"
    then have "1 \<le> j" by auto
    from progress_percentage_div[OF this, of ?N]
    show "(progress_percentage j ?N, j, ?N) = (30 + ((int j - 1) * 65) div int ?N, j, ?N)"
      by (simp only:)
  qed
  from generate_events[OF conv, of k dl d u t h s]
  obtain evs r where pp: "process_pages env k dl ?N 0 images = (evs, r)"
    and g: "?g = Info ?N k # evs @ [case r of None \<Rightarrow> Complete k | Some e \<Rightarrow> Error e]"
    by blast
  have lines: "progress_lines ?g = progress_lines evs"
    by (cases r) (simp_all add: g stream_observers)
  from process_pages_progress[OF pp] obtain m where m: "m \<le> ?N"
    and pl: "progress_lines evs = map (\<lambda>j. (progress_percentage j ?N, j, ?N)) [Suc 0 ..< Suc 0 + m]"
    by blast
  have "progress_lines ?g = map ?f [1 ..< Suc m]"
    using pl lines formula[of m] by simp
  with m have first: "\<exists>m \<le> ?N. progress_lines ?g = map ?f [1 ..< Suc m]"
    by blast
  have second: "progress_lines ?g = map ?f [1 ..< Suc ?N]" if ok: "\<not> list_ex is_error ?g"
  proof -
    from generate_without_error[OF conv ok]
    obtain evs' where pp': "process_pages env k dl ?N 0 images = (evs', None)"
      and g': "?g = Info ?N k # evs' @ [Complete k]"
      by blast
    from process_pages_completed[OF pp']
    have "progress_lines evs' = map (\<lambda>j. (progress_percentage j ?N, j, ?N)) [Suc 0 ..< Suc 0 + ?N]"
      by blast
    then show ?thesis using formula[of ?N] by (simp add: g' stream_observers)
  qed
  have third: "progress_values ?g = [30, 51, 73]"
    if ok: "\<not> list_ex is_error ?g" and three: "?N = 3"
  proof -
    have "[1 ..< Suc 3] = [1, 2, 3::nat]"
      by (simp add: upt_rec)
    with second[OF ok] three show ?thesis
      by (simp add: progress_values_lines)
  qed
  from first second third show ?thesis by blast
qed

lemma working_env_stream:
  "fst (generate working_env empty_catalog 8 ''Notes'' ''notes_1700000000'' ''9f86d081884c7d65'' 14
          ''detailed'' ''%PDF-1.4 notes'') =
     [Info 3 ''notes_1700000000'',
      Progress 30 1 3,
      Page \<lparr>pd_page_number = 1, pd_image = ''SlBFRzE='',
            pd_explanation = ''This page introduces limits.'', pd_audio = ''TVAz'',
            pd_audio_url = ''/pdf/notes_1700000000/audio/1'',
            pd_image_url = ''/pdf/notes_1700000000/image/1''\<rparr>,
      Progress 51 2 3,
      Page \<lparr>pd_page_number = 2, pd_image = ''SlBFRzI='',
            pd_explanation = ''This page introduces limits.'', pd_audio = ''TVAz'',
            pd_audio_url = ''/pdf/notes_1700000000/audio/2'',
            pd_image_url = ''/pdf/notes_1700000000/image/2''\<rparr>,
      Progress 73 3 3,
      Page \<lparr>pd_page_number = 3, pd_image = ''SlBFRzM='',
            pd_explanation = ''This page introduces limits.'', pd_audio = ''TVAz'',
            pd_audio_url = ''/pdf/notes_1700000000/audio/3'',
            pd_image_url = ''/pdf/notes_1700000000/image/3''\<rparr>,
      Complete ''notes_1700000000'']"
  by (simp add: generate_def process_page_def explain_page_def narrate_page_def
        speech_text_of_def working_env_def empty_catalog_def add_pdf_def
        associate_pdf_with_user_def next_rowid_def upload_file_def get_storage_client_def
        local_only_env_def b64_table_def strip_def is_space_def UPLOAD_FOLDER_def
        GCS_TEXT_PREFIX_def DEFAULT_BUCKET_NAME_def digit_char_def Let_def
        progress_percentage_def py_int_def str_nat.simps)

theorem progress_events_formula_witness:
  "convert_from_path working_env ''%PDF-1.4 notes'' = Returns [''JPEG1'', ''JPEG2'', ''JPEG3''] \<and>
   \<not> list_ex is_error (fst (generate working_env empty_catalog 8 ''Notes'' ''notes_1700000000''
                              ''9f86d081884c7d65'' 14 ''detailed'' ''%PDF-1.4 notes'')) \<and>
   progress_values (fst (generate working_env empty_catalog 8 ''Notes'' ''notes_1700000000''
                              ''9f86d081884c7d65'' 14 ''detailed'' ''%PDF-1.4 notes'')) = [30, 51, 73]"
proof -
  have conv: "convert_from_path working_env ''%PDF-1.4 notes'' = Returns [''JPEG1'', ''JPEG2'', ''JPEG3'']"
    by (simp add: working_env_def)
  have ok: "\<not> list_ex is_error (fst (generate working_env empty_catalog 8 ''Notes'' ''notes_1700000000''
                              ''9f86d081884c7d65'' 14 ''detailed'' ''%PDF-1.4 notes''))"
    by (simp add: working_env_stream is_error_def)
  from progress_events_formula[OF conv, of empty_catalog 8 "''Notes''" "''notes_1700000000''"
         "''9f86d081884c7d65''" 14 "''detailed''"] conv ok
  show ?thesis by simp
qed


text \<open>
  C7.  When the rasteriser returns \<open>N\<close> pages and the stream has no error line, the
  stream starts with the info line carrying \<open>N\<close>, has exactly \<open>N\<close> page lines, their
  page numbers are \<open>1, 2, ..., N\<close> in this order, strictly increasing, and it ends with
  the completion line.
\<close>

theorem page_events_in_order:
  assumes conv: "convert_from_path env bytes = Returns images"
    and ok: "\<not> list_ex is_error (fst (generate env d u t k h s dl bytes))"
  shows "hd (fst (generate env d u t k h s dl bytes)) = Info (length images) k \<and>
         page_numbers (fst (generate env d u t k h s dl bytes)) = [1 ..< Suc (length images)] \<and>
         length (page_numbers (fst (generate env d u t k h s dl bytes))) = length images \<and>
         sorted_wrt (<) (page_numbers (fst (generate env d u t k h s dl bytes))) \<and>
         last (fst (generate env d u t k h s dl bytes)) = Complete k"
proof -
  from generate_without_error[OF conv ok]
  obtain evs where pp: "process_pages env k dl (length images) 0 images = (evs, None)"
    and g: "fst (generate env d u t k h s dl bytes) = Info (length images) k # evs @ [Complete k]"
    by blast
  from process_pages_completed[OF pp]
  have pn: "page_numbers evs = [Suc 0 ..< Suc 0 + length images]" by blast
  have numbers: "page_numbers (fst (generate env d u t k h s dl bytes)) = [1 ..< Suc (length images)]"
    using pn by (simp add: g stream_observers)
  have "sorted_wrt (<) [1 ..< Suc (length images)]"
    by (rule sorted_wrt_upt)
  with numbers show ?thesis by (simp add: g del: upt_Suc)
qed

theorem page_events_in_order_witness:
  "convert_from_path working_env ''%PDF-1.4 notes'' = Returns [''JPEG1'', ''JPEG2'', ''JPEG3''] \<and>
   \<not> list_ex is_error (fst (generate working_env empty_catalog 8 ''Notes'' ''notes_1700000000''
                              ''9f86d081884c7d65'' 14 ''detailed'' ''%PDF-1.4 notes'')) \<and>
   hd (fst (generate working_env empty_catalog 8 ''Notes'' ''notes_1700000000''
              ''9f86d081884c7d65'' 14 ''detailed'' ''%PDF-1.4 notes'')) = Info 3 ''notes_1700000000'' \<and>
   page_numbers (fst (generate working_env empty_catalog 8 ''Notes'' ''notes_1700000000''
                        ''9f86d081884c7d65'' 14 ''detailed'' ''%PDF-1.4 notes'')) = [1, 2, 3]"
proof -
  have conv: "convert_from_path working_env ''%PDF-1.4 notes'' = Returns [''JPEG1'', ''JPEG2'', ''JPEG3'']"
    by (simp add: working_env_def)
  have ok: "\<not> list_ex is_error (fst (generate working_env empty_catalog 8 ''Notes'' ''notes_1700000000''
                              ''9f86d081884c7d65'' 14 ''detailed'' ''%PDF-1.4 notes''))"
    by (simp add: working_env_stream is_error_def)
  have three: "[1 ..< Suc (length [''JPEG1'', ''JPEG2'', ''JPEG3''])] = [1, 2, 3::nat]"
    by (simp add: upt_rec)
  from page_events_in_order[OF conv ok] conv ok three
  show ?thesis by simp
qed


section \<open>IngestPipeline: failing capabilities\<close>








section \<open>IngestPipeline: a PDF already in the catalog\<close>

text \<open>
  C1.  A request that carries a file named \<open>*.pdf\<close> whose bytes hash to the hash of a
  stored row \<open>r\<close>, on a catalog with unique hashes: \<open>process_pdf\<close> answers with the
  one JSON body \<open>{type: existing, pdf_name: file_path r, ...}\<close> (status 200) and not
  with a stream; the \<open>pdfs\<close> table is what it was, so no second record exists; and the
  database afterwards is the one \<open>associate_pdf_with_user\<close> leaves for the calling
  user and \<open>r\<close>, in which that user is linked to \<open>r\<close>.
\<close>

theorem process_pdf_duplicate:
  assumes upl: "req_file req = Some file"
    and pdf: "endswith (up_filename file) ''.pdf''"
    and uniq: "distinct (map pdf_hash (pdfs d))"
    and r: "r \<in> set (pdfs d)"
    and h: "pdf_hash r = calculate_file_hash env (up_bytes file)"
  shows "fst (process_pdf env d req) = Json_Response 200 (existing_body (file_path r)) \<and>
         (\<forall>evs. fst (process_pdf env d req) \<noteq> Stream_Response evs) \<and>
         pdfs (snd (process_pdf env d req)) = pdfs d \<and>
         snd (process_pdf env d req) = snd (associate_pdf_with_user d (req_user_id req) (pdf_id r)) \<and>
         0 < link_count (snd (process_pdf env d req)) (req_user_id req) (pdf_id r)"
proof -
  have name: "up_filename file \<noteq> []"
    using pdf by (auto simp: endswith_def)
  have found: "get_pdf_by_hash d (calculate_file_hash env (up_bytes file)) = Some r"
    using find_unique_hash[OF uniq r] h by (simp add: get_pdf_by_hash_def)
  have res: "process_pdf env d req =
               (Json_Response 200 (existing_body (file_path r)),
                snd (associate_pdf_with_user d (req_user_id req) (pdf_id r)))"
    using upl pdf name found
    by (simp add: process_pdf_def Let_def split: prod.splits)
  have same: "pdfs (snd (associate_pdf_with_user d (req_user_id req) (pdf_id r))) = pdfs d"
    by (simp add: associate_pdf_with_user_def Let_def split: option.splits)
  have linked: "0 < link_count (snd (associate_pdf_with_user d (req_user_id req) (pdf_id r)))
                     (req_user_id req) (pdf_id r)"
    by (simp add: link_count_associate)
  from res same linked show ?thesis by simp
qed

theorem process_pdf_duplicate_witness:
  "req_file notes_request = Some \<lparr>up_filename = ''Notes.pdf'', up_bytes = ''%PDF-1.4 notes''\<rparr> \<and>
   endswith ''Notes.pdf'' ''.pdf'' \<and>
   distinct (map pdf_hash (pdfs catalog_one)) \<and>
   hd (pdfs catalog_one) \<in> set (pdfs catalog_one) \<and>
   pdf_hash (hd (pdfs catalog_one)) = calculate_file_hash working_env ''%PDF-1.4 notes'' \<and>
   fst (process_pdf working_env catalog_one notes_request) =
     Json_Response 200 (existing_body ''notes_1700000000'') \<and>
   pdfs (snd (process_pdf working_env catalog_one notes_request)) = pdfs catalog_one \<and>
   0 < link_count (snd (process_pdf working_env catalog_one notes_request)) 8 1"
proof -
  have upl: "req_file notes_request = Some \<lparr>up_filename = ''Notes.pdf'', up_bytes = ''%PDF-1.4 notes''\<rparr>"
    by (simp add: notes_request_def)
  have pdf: "endswith (up_filename \<lparr>up_filename = ''Notes.pdf'', up_bytes = ''%PDF-1.4 notes''\<rparr>) ''.pdf''"
    by (simp add: endswith_def)
  have uniq: "distinct (map pdf_hash (pdfs catalog_one))"
    by (simp add: catalog_one_def)
  have r: "hd (pdfs catalog_one) \<in> set (pdfs catalog_one)"
    by (simp add: catalog_one_def)
  have h: "pdf_hash (hd (pdfs catalog_one)) =
             calculate_file_hash working_env
               (up_bytes \<lparr>up_filename = ''Notes.pdf'', up_bytes = ''%PDF-1.4 notes''\<rparr>)"
    by (simp add: catalog_one_def working_env_def)
  have user: "req_user_id notes_request = 8"
    by (simp add: notes_request_def)
  have row: "file_path (hd (pdfs catalog_one)) = ''notes_1700000000''" "pdf_id (hd (pdfs catalog_one)) = 1"
    by (simp_all add: catalog_one_def)
  note T = process_pdf_duplicate[OF upl pdf uniq r h]
  from T have a: "fst (process_pdf working_env catalog_one notes_request) =
                    Json_Response 200 (existing_body (file_path (hd (pdfs catalog_one))))"
    by blast
  from T have b: "pdfs (snd (process_pdf working_env catalog_one notes_request)) = pdfs catalog_one"
    by blast
  from T have c: "0 < link_count (snd (process_pdf working_env catalog_one notes_request))
                        (req_user_id notes_request) (pdf_id (hd (pdfs catalog_one)))"
    by blast
  have pdf': "endswith ''Notes.pdf'' ''.pdf''"
    by (simp add: endswith_def)
  have h': "pdf_hash (hd (pdfs catalog_one)) = calculate_file_hash working_env ''%PDF-1.4 notes''"
    using h by simp
  from upl pdf' uniq r h' a[unfolded row] b c[unfolded row user] show ?thesis by blast
qed

text \<open>
  The database after a stream does not depend on what the pages did; and the same
  bytes twice: after a first submission that was ingested, a second one by another
  user finds the record of the first.
\<close>

lemma generate_db:
  "snd (generate env d u t k h s dl bytes) =
     (case convert_from_path env bytes of
        Raises e \<Rightarrow> d
      | Returns images \<Rightarrow>
          snd (associate_pdf_with_user (snd (add_pdf d t k h s (length images))) u
                 (fst (add_pdf d t k h s (length images)))))"
  by (simp add: generate_def Let_def split: outcome.splits prod.splits option.splits)

lemma process_pdf_new_hash:
  assumes "req_file req = Some upl" and "endswith (up_filename upl) ''.pdf''"
    and "get_pdf_by_hash d (calculate_file_hash env (up_bytes upl)) = None"
  shows "snd (process_pdf env d req) =
           snd (generate env d (req_user_id req) (splitext_root (basename (up_filename upl)))
                  (clean_name (splitext_root (basename (up_filename upl))) @ ''_'' @ str_nat (time_now env))
                  (calculate_file_hash env (up_bytes upl)) (length (up_bytes upl))
                  (case req_difficulty_level req of None \<Rightarrow> ''detailed'' | Some l \<Rightarrow> l)
                  (up_bytes upl))"
proof -
  have "up_filename upl \<noteq> []"
    using assms(2) by (auto simp: endswith_def)
  with assms show ?thesis
    by (simp add: process_pdf_def Let_def case_prod_beta)
qed

lemma working_env_first_submission:
  "pdfs (snd (process_pdf working_env empty_catalog notes_request)) =
     [\<lparr>pdf_id = 1, title = ''Notes'', file_path = ''notes_1700000000'',
       pdf_hash = ''9f86d081884c7d65'', file_size = 14, page_count = 3, created_at = 0\<rparr>]"
proof -
  have a: "req_file notes_request = Some \<lparr>up_filename = ''Notes.pdf'', up_bytes = ''%PDF-1.4 notes''\<rparr>"
    by (simp add: notes_request_def)
  have b: "endswith (up_filename \<lparr>up_filename = ''Notes.pdf'', up_bytes = ''%PDF-1.4 notes''\<rparr>) ''.pdf''"
    by (simp add: endswith_def)
  have c: "get_pdf_by_hash empty_catalog
             (calculate_file_hash working_env
                (up_bytes \<lparr>up_filename = ''Notes.pdf'', up_bytes = ''%PDF-1.4 notes''\<rparr>)) = None"
    by (simp add: get_pdf_by_hash_def empty_catalog_def)
  show ?thesis
    unfolding process_pdf_new_hash[OF a b c] generate_db
    by (simp add: working_env_def empty_catalog_def notes_request_def add_pdf_def
          associate_pdf_with_user_def next_rowid_def Let_def basename_def splitext_root_def
          clean_name_def is_word_char_def ascii_lower_def digit_char_def str_nat.simps)
qed

lemma working_env_second_submission:
  "fst (process_pdf working_env (snd (process_pdf working_env empty_catalog notes_request))
          (notes_request\<lparr>req_user_id := 9\<rparr>)) =
     Json_Response 200 (existing_body ''notes_1700000000'')"
proof -
  let ?d = "snd (process_pdf working_env empty_catalog notes_request)"
  let ?r = "\<lparr>pdf_id = 1, title = ''Notes'', file_path = ''notes_1700000000'',
             pdf_hash = ''9f86d081884c7d65'', file_size = 14, page_count = 3, created_at = 0\<rparr>"
  have hsh: "calculate_file_hash working_env ''%PDF-1.4 notes'' = ''9f86d081884c7d65''"
    by (simp add: working_env_def)
  have found: "get_pdf_by_hash ?d (calculate_file_hash working_env ''%PDF-1.4 notes'') = Some ?r"
    by (simp add: get_pdf_by_hash_def working_env_first_submission hsh)
  show ?thesis
    using found
    by (simp add: process_pdf_def notes_request_def endswith_def Let_def case_prod_beta)
qed


section \<open>RetrievalService: the shape of a quiz and the second attempt\<close>























end
